theory Spec2Isabelle
  imports Main "HOL-Library.Word"
begin

unbundle bit_operations_syntax

section \<open>The capture library as the listener uses it\<close>

text \<open>
  The listener (\<^verbatim>\<open>listener/raw_tcp_listener.go\<close>) is written against the gopcap
  capture library. Only the parts of the library's data that the listener reads are
  modelled: the TCP header fields, the list of decoded headers of a packet and the
  packet's payload. A \<open>Packet\<close> of the model is the packet after \<^verbatim>\<open>pkt.Decode()\<close>,
  which fills \<open>Headers\<close> (one entry per decoded protocol layer, outermost first) and
  \<open>Payload\<close>.
\<close>

record Tcphdr =
  SrcPort :: "16 word"
  DestPort :: "16 word"
  Seq :: "32 word"
  Ack :: "32 word"
  Flags :: "16 word"

text \<open>\<^verbatim>\<open>Headers []interface{}\<close>: the dynamic type of an entry is one of the
  library's header structs.\<close>

datatype header = H_Arp | H_Ip | H_Ip6 | H_Icmp | H_Udp | H_Tcp Tcphdr

record Packet =
  Headers :: "header list"
  Payload :: string

text \<open>\<^verbatim>\<open>pcap.TCP_PSH\<close> is the fourth flag bit (\<^verbatim>\<open>1 << 3\<close>).\<close>

definition TCP_PSH :: "16 word" where
  "TCP_PSH = 8"

record Interface =
  Name :: string

datatype Pcap = Pcap nat

text \<open>
  What the capture library answers at startup: the result pair of
  \<^verbatim>\<open>pcap.Findalldevs()\<close> and, for each device name, the result pair of
  \<^verbatim>\<open>pcap.Openlive(name, 4026, true, 0)\<close>. An error is its text; \<open>None\<close> is
  \<^verbatim>\<open>nil\<close>.
\<close>

record pcap_env =
  Findalldevs :: "Interface list \<times> string option"
  Openlive :: "string \<Rightarrow> Pcap option \<times> string option"

text \<open>The package-level \<^verbatim>\<open>Settings\<close> is declared outside the listener's file; the
  listener reads its \<^verbatim>\<open>Device\<close> field only.\<close>

record Settings =
  Device :: string

text \<open>The calls made on the capture library, in order.\<close>

datatype event =
    Ev_Findalldevs
  | Ev_Openlive string
  | Ev_Setfilter "Pcap option" string

text \<open>
  How a call ends: it returns, the process exits through \<^verbatim>\<open>log.Fatal\<close> with the
  logged text, a run-time panic occurs, or the goroutine waits on a channel operation
  that cannot proceed in the current state.
\<close>

datatype 'a outcome = Return 'a | Fatal string | Panic | Blocked

section \<open>Go's conversion of an integer to a string\<close>

text \<open>
  \<^verbatim>\<open>string(i)\<close> for an integer \<open>i\<close> is the UTF-8 encoding of the code point \<open>i\<close>;
  a value that is not a valid code point gives the encoding of U+FFFD. The
  definitions follow the run-time's \<^verbatim>\<open>intstring\<close> and \<^verbatim>\<open>encoderune\<close>.
\<close>

definition runeError :: int where
  "runeError = 0xFFFD"

definition encode3 :: "int \<Rightarrow> string" where
  "encode3 i = [char_of (0xE0 OR drop_bit 12 i),
                char_of (0x80 OR (drop_bit 6 i AND 0x3F)),
                char_of (0x80 OR (i AND 0x3F))]"

definition encoderune :: "int \<Rightarrow> string" where
  "encoderune r =
     (let i = r mod 2 ^ 32 in
      if i \<le> 0x7F then [char_of i]
      else if i \<le> 0x7FF then
        [char_of (0xC0 OR drop_bit 6 i), char_of (0x80 OR (i AND 0x3F))]
      else if i > 0x10FFFF \<or> (0xD800 \<le> i \<and> i \<le> 0xDFFF) then encode3 runeError
      else if i \<le> 0xFFFF then encode3 i
      else
        [char_of (0xF0 OR drop_bit 18 i),
         char_of (0x80 OR (drop_bit 12 i AND 0x3F)),
         char_of (0x80 OR (drop_bit 6 i AND 0x3F)),
         char_of (0x80 OR (i AND 0x3F))])"

definition intstring :: "int \<Rightarrow> string" where
  "intstring v = encoderune (if - (2 ^ 31) \<le> v \<and> v < 2 ^ 31 then v else runeError)"

section \<open>Channels\<close>

text \<open>
  A buffered channel is the list of the values waiting in it, oldest first. All three
  channels of the listener are made with capacity 100. A send on a full channel does
  not proceed; neither does a receive on an empty one.
\<close>

definition chan_cap :: nat where
  "chan_cap = 100"

definition chan_send :: "'a list \<Rightarrow> 'a \<Rightarrow> 'a list outcome" where
  "chan_send q x = (if length q < chan_cap then Return (q @ [x]) else Blocked)"

section \<open>TCPMessage\<close>

text \<open>
  Modelled from the spec: \<^verbatim>\<open>TCPMessage\<close> and \<^verbatim>\<open>NewTCPMessage\<close> (the listener's
  comments place them in \<^verbatim>\<open>tcp_message.go\<close>) are missing from the sources. The
  listener itself uses the field \<^verbatim>\<open>Ack\<close>, the channel \<^verbatim>\<open>c_packets\<close> and the
  constructor; buffer and status are the spec's "ordered buffer of received payload
  bytes" and "completion/expiry flag". The disposition channel handed to the
  constructor is always the listener's \<^verbatim>\<open>c_del_message\<close>, so it is not stored.
\<close>

datatype disposition = Building | Completed | Expired

record TCPMessage =
  Ack :: "32 word"
  c_packets :: "Packet list"
  buffer :: string
  status :: disposition

text \<open>Modelled from the spec: the missing constructor \<^verbatim>\<open>NewTCPMessage\<close>; "construct
  a new TCPMessage for that FlowKey".\<close>

definition NewTCPMessage :: "32 word \<Rightarrow> TCPMessage" where
  "NewTCPMessage ack =
     \<lparr>TCPMessage.Ack = ack, c_packets = [], buffer = [], status = Building\<rparr>"

text \<open>Modelled from the spec: the push flag of a CapturedPacket, read from its TCP
  header.\<close>

definition push_flag :: "Packet \<Rightarrow> bool" where
  "push_flag p =
     (case Headers p of
        _ # H_Tcp h # _ \<Rightarrow> Flags h AND TCP_PSH \<noteq> 0
      | _ \<Rightarrow> False)"

text \<open>
  Modelled from the spec: the missing \<^verbatim>\<open>append(packet)\<close> of TCPMessage; "add payload
  to buffer; if the packet carries the push flag, mark Completed and emit self on the
  disposition channel exactly once", with "an internal completed/expired flag checked
  before emitting". The second component says whether the message emits itself.
\<close>

definition append_packet :: "TCPMessage \<Rightarrow> Packet \<Rightarrow> TCPMessage \<times> bool" where
  "append_packet m p =
     (let m' = m\<lparr>buffer := buffer m @ Payload p\<rparr> in
      if push_flag p \<and> status m' = Building then (m'\<lparr>status := Completed\<rparr>, True)
      else (m', False))"

text \<open>
  Modelled from the spec: the missing inactivity watchdog of TCPMessage; "mark Expired
  and emit self on the disposition channel exactly once", behind the same flag.
\<close>

definition expire :: "TCPMessage \<Rightarrow> TCPMessage \<times> bool" where
  "expire m =
     (if status m = Building then (m\<lparr>status := Expired\<rparr>, True) else (m, False))"

text \<open>The life of one message: the packets appended to it and the firings of its
  watchdog, in the order they happen.\<close>

datatype msg_event = Append Packet | Timeout

fun msg_step :: "TCPMessage \<Rightarrow> msg_event \<Rightarrow> TCPMessage \<times> bool" where
  "msg_step m (Append p) = append_packet m p"
| "msg_step m Timeout = expire m"

text \<open>The message after a list of events, and how many times it emitted itself.\<close>

fun msg_run :: "TCPMessage \<Rightarrow> msg_event list \<Rightarrow> TCPMessage \<times> nat" where
  "msg_run m [] = (m, 0)"
| "msg_run m (e # es) =
     (case msg_step m e of
        (m', emitted) \<Rightarrow>
          (case msg_run m' es of
             (m'', n) \<Rightarrow> (m'', (if emitted then 1 else 0) + n)))"

text \<open>An event that finishes a message that is still being built.\<close>

fun finalizing :: "msg_event \<Rightarrow> bool" where
  "finalizing (Append p) = push_flag p"
| "finalizing Timeout = True"

fun disposition_of :: "msg_event \<Rightarrow> disposition" where
  "disposition_of (Append p) = Completed"
| "disposition_of Timeout = Expired"

section \<open>The listener\<close>

text \<open>
  \<^verbatim>\<open>messages\<close> maps an acknowledgment number to a pointer to a TCPMessage. A pointer
  is an index into the store of all messages allocated so far (\<open>heap\<close>), which the
  state of the whole program adds to the listener's fields.
\<close>

record RAWTCPListener =
  messages :: "32 word \<rightharpoonup> nat"
  c_packets :: "Packet list"
  c_messages :: "nat list"
  c_del_message :: "nat list"
  sniffer :: "Pcap option"
  device :: string
  port :: int

record world = RAWTCPListener +
  heap :: "TCPMessage list"

subsection \<open>startSniffer\<close>

text \<open>The loop over the enumerated devices: the name of the first device whose name
  is the wanted one, the empty string when there is none.\<close>

fun find_interface :: "Interface list \<Rightarrow> string \<Rightarrow> string" where
  "find_interface [] wanted = ''''"
| "find_interface (d # ds) wanted =
     (if Name d = wanted then Name d else find_interface ds wanted)"

definition filter_expr :: "int \<Rightarrow> string" where
  "filter_expr p = ''tcp dst port '' @ intstring p"

text \<open>
  \<^verbatim>\<open>h.Setfilter(...)\<close> is called before the error of \<^verbatim>\<open>Openlive\<close> is looked at, and
  its own result is dropped. The library's method reads a field of its receiver, so
  on a nil handle it panics.
\<close>

definition startSniffer ::
  "pcap_env \<Rightarrow> Settings \<Rightarrow> 'a RAWTCPListener_scheme \<Rightarrow>
     event list \<times> 'a RAWTCPListener_scheme outcome" where
  "startSniffer env st t =
     (case Findalldevs env of
        (devices, err) \<Rightarrow>
          (case err of
             Some e \<Rightarrow> ([Ev_Findalldevs], Fatal (''Error while getting device list'' @ e))
           | None \<Rightarrow>
               (let networkInterface = find_interface devices (Device st) in
                if networkInterface = '''' then
                  ([Ev_Findalldevs],
                   Fatal (''Could not find network interface'' @ Device st))
                else
                  (case Openlive env networkInterface of
                     (h, err) \<Rightarrow>
                       (let evs = [Ev_Findalldevs, Ev_Openlive networkInterface,
                                   Ev_Setfilter h (filter_expr (port t))] in
                        case h of
                          None \<Rightarrow> (evs, Panic)
                        | Some p \<Rightarrow>
                            (case err of
                               Some e \<Rightarrow>
                                 (evs, Fatal (''Error while trying to listen'' @ e))
                             | None \<Rightarrow> (evs, Return (t\<lparr>sniffer := Some p\<rparr>))))))))"

subsection \<open>RAWTCPListen\<close>

text \<open>The constructor returns once \<^verbatim>\<open>startSniffer\<close> has returned; the two goroutines
  it starts are the actions of the next sections.\<close>

definition RAWTCPListen ::
  "pcap_env \<Rightarrow> Settings \<Rightarrow> string \<Rightarrow> int \<Rightarrow> event list \<times> world outcome" where
  "RAWTCPListen env st dev prt =
     startSniffer env st
       \<lparr>messages = Map.empty, c_packets = [], c_messages = [], c_del_message = [],
        sniffer = None, device = dev, port = prt, heap = []\<rparr>"

subsection \<open>readRAWSocket\<close>

text \<open>One turn of the capture loop on the result of \<^verbatim>\<open>t.sniffer.Next()\<close>: the packet
  that is sent on \<^verbatim>\<open>c_packets\<close>, if any.\<close>

definition readRAWSocket_iter ::
  "'a RAWTCPListener_scheme \<Rightarrow> Packet option \<Rightarrow> Packet option" where
  "readRAWSocket_iter t nxt =
     (case nxt of
        None \<Rightarrow> None
      | Some pkt \<Rightarrow>
          if length (Headers pkt) < 2 then None
          else
            (case Headers pkt ! 1 of
               H_Tcp header \<Rightarrow>
                 (let prt = uint (DestPort header) in
                  if prt = port t \<and> Flags header AND TCP_PSH \<noteq> 0 then Some pkt
                  else None)
             | _ \<Rightarrow> None))"

definition readRAWSocket :: "world \<Rightarrow> Packet option \<Rightarrow> world outcome" where
  "readRAWSocket t nxt =
     (case readRAWSocket_iter t nxt of
        None \<Rightarrow> Return t
      | Some pkt \<Rightarrow>
          map_outcome (\<lambda>q. t\<lparr>c_packets := q\<rparr>) (chan_send (RAWTCPListener.c_packets t) pkt))"

subsection \<open>processTCPPacket\<close>

text \<open>\<^verbatim>\<open>message.c_packets <- packet\<close>: the packet joins the ones waiting for the
  message's own goroutine. The channel is made by the missing constructor, so its
  capacity is not known; any number of packets may wait.\<close>

definition send_to_message :: "nat \<Rightarrow> Packet \<Rightarrow> world \<Rightarrow> world" where
  "send_to_message r packet t =
     t\<lparr>heap := (heap t)[r := (heap t ! r)
          \<lparr>TCPMessage.c_packets := TCPMessage.c_packets (heap t ! r) @ [packet]\<rparr>]\<rparr>"

text \<open>Indexing \<^verbatim>\<open>packet.Headers[1]\<close> out of range and a failed type assertion both
  panic.\<close>

definition processTCPPacket :: "world \<Rightarrow> Packet \<Rightarrow> world outcome" where
  "processTCPPacket t packet =
     (if length (Headers packet) < 2 then Panic
      else
        (case Headers packet ! 1 of
           H_Tcp header \<Rightarrow>
             (let ack = Tcphdr.Ack header in
              case messages t ack of
                None \<Rightarrow>
                  (let message = length (heap t);
                       t' = t\<lparr>messages := (messages t)(ack \<mapsto> message),
                              heap := heap t @ [NewTCPMessage ack]\<rparr>
                   in Return (send_to_message message packet t'))
              | Some message \<Rightarrow> Return (send_to_message message packet t))
         | _ \<Rightarrow> Panic))"

subsection \<open>listen\<close>

text \<open>One turn of the dispatcher's loop, for the case the \<^verbatim>\<open>select\<close> takes. The
  turn on a finished message is taken as a whole: it needs a message waiting on
  \<^verbatim>\<open>c_del_message\<close> and room on \<^verbatim>\<open>c_messages\<close>.\<close>

datatype select_case = Case_del_message | Case_packet

definition listen_iter :: "select_case \<Rightarrow> world \<Rightarrow> world outcome" where
  "listen_iter c t =
     (case c of
        Case_del_message \<Rightarrow>
          (case c_del_message t of
             [] \<Rightarrow> Blocked
           | message # rest \<Rightarrow>
               (case chan_send (c_messages t) message of
                  Return q \<Rightarrow>
                    Return (t\<lparr>c_del_message := rest, c_messages := q,
                              messages :=
                                (messages t)(TCPMessage.Ack (heap t ! message) := None)\<rparr>)
                | other \<Rightarrow> Blocked))
      | Case_packet \<Rightarrow>
          (case RAWTCPListener.c_packets t of
             [] \<Rightarrow> Blocked
           | packet # rest \<Rightarrow> processTCPPacket (t\<lparr>c_packets := rest\<rparr>) packet))"

subsection \<open>Receive\<close>

definition Receive :: "world \<Rightarrow> (nat \<times> world) outcome" where
  "Receive t =
     (case c_messages t of
        [] \<Rightarrow> Blocked
      | m # rest \<Rightarrow> Return (m, t\<lparr>c_messages := rest\<rparr>))"

section \<open>The goroutines of the messages\<close>

text \<open>Modelled from the spec: the missing report of a TCPMessage on its disposition
  channel. A message that emits itself sends its own pointer on the listener's
  \<^verbatim>\<open>c_del_message\<close>.\<close>

definition emit_self :: "nat \<Rightarrow> bool \<Rightarrow> world \<Rightarrow> world outcome" where
  "emit_self r emitted t =
     (if emitted then
        map_outcome (\<lambda>q. t\<lparr>c_del_message := q\<rparr>) (chan_send (c_del_message t) r)
      else Return t)"

text \<open>Modelled from the spec: the missing goroutine of a TCPMessage. Message \<open>r\<close>
  takes the next packet waiting on its \<^verbatim>\<open>c_packets\<close> and appends it.\<close>

definition message_receive :: "nat \<Rightarrow> world \<Rightarrow> world outcome" where
  "message_receive r t =
     (if length (heap t) \<le> r then Blocked
      else
        (case TCPMessage.c_packets (heap t ! r) of
           [] \<Rightarrow> Blocked
         | p # rest \<Rightarrow>
             (case append_packet ((heap t ! r)\<lparr>TCPMessage.c_packets := rest\<rparr>) p of
                (m', emitted) \<Rightarrow> emit_self r emitted (t\<lparr>heap := (heap t)[r := m']\<rparr>))))"

text \<open>Modelled from the spec: the missing watchdog of a TCPMessage. The watchdog of
  message \<open>r\<close> fires.\<close>

definition message_timeout :: "nat \<Rightarrow> world \<Rightarrow> world outcome" where
  "message_timeout r t =
     (if length (heap t) \<le> r then Blocked
      else
        (case expire (heap t ! r) of
           (m', emitted) \<Rightarrow> emit_self r emitted (t\<lparr>heap := (heap t)[r := m']\<rparr>)))"

section \<open>Executions\<close>

text \<open>
  The program after \<^verbatim>\<open>RAWTCPListen\<close> is the interleaving of the capture loop, the
  dispatcher's loop, the goroutines of the messages and the caller of \<^verbatim>\<open>Receive\<close>.
  One action is one turn of one of them.
\<close>

datatype action =
    A_capture "Packet option"
  | A_listen select_case
  | A_message nat
  | A_timeout nat
  | A_Receive

fun step :: "action \<Rightarrow> world \<Rightarrow> world outcome" where
  "step (A_capture nxt) t = readRAWSocket t nxt"
| "step (A_listen c) t = listen_iter c t"
| "step (A_message r) t = message_receive r t"
| "step (A_timeout r) t = message_timeout r t"
| "step A_Receive t = map_outcome snd (Receive t)"

fun run :: "action list \<Rightarrow> world \<Rightarrow> world outcome" where
  "run [] t = Return t"
| "run (a # as) t =
     (case step a t of
        Return t' \<Rightarrow> run as t'
      | Fatal s \<Rightarrow> Fatal s
      | Panic \<Rightarrow> Panic
      | Blocked \<Rightarrow> Blocked)"

text \<open>The whole program: the constructor, then a schedule of actions.\<close>

definition program ::
  "pcap_env \<Rightarrow> Settings \<Rightarrow> string \<Rightarrow> int \<Rightarrow> action list \<Rightarrow> world outcome" where
  "program env st dev prt acts =
     (case snd (RAWTCPListen env st dev prt) of
        Return t \<Rightarrow> run acts t
      | Fatal s \<Rightarrow> Fatal s
      | Panic \<Rightarrow> Panic
      | Blocked \<Rightarrow> Blocked)"

section \<open>Properties of states\<close>

text \<open>The second decoded header of a packet is a TCP header.\<close>

definition tcp_second :: "Packet \<Rightarrow> bool" where
  "tcp_second p = (case Headers p of _ # H_Tcp h # _ \<Rightarrow> True | _ \<Rightarrow> False)"

text \<open>Every packet waiting on the capture queue has a TCP header as its second
  header.\<close>

definition packets_ok :: "world \<Rightarrow> bool" where
  "packets_ok t = list_all tcp_second (RAWTCPListener.c_packets t)"

text \<open>Every entry of the message table points to an allocated message whose
  \<^verbatim>\<open>Ack\<close> is the key of the entry.\<close>

definition table_ok :: "world \<Rightarrow> bool" where
  "table_ok t =
     (\<forall>k r. messages t k = Some r \<longrightarrow>
        r < length (heap t) \<and> TCPMessage.Ack (heap t ! r) = k)"

text \<open>What the caller of \<^verbatim>\<open>Receive\<close> gets after an execution: the message behind
  the returned pointer.\<close>

definition received :: "world outcome \<Rightarrow> TCPMessage outcome" where
  "received out =
     (case out of
        Return t \<Rightarrow> map_outcome (\<lambda>(m, t'). heap t' ! m) (Receive t)
      | Fatal s \<Rightarrow> Fatal s
      | Panic \<Rightarrow> Panic
      | Blocked \<Rightarrow> Blocked)"

section \<open>A capture scenario\<close>

text \<open>One device \<^verbatim>\<open>eth0\<close> that opens without error, the listener on port 80, and two
  packets to port 80 with acknowledgment number 42: the first without the push flag
  (ACK only), the second with it (PSH and ACK).\<close>

definition scenario_env :: pcap_env where
  "scenario_env =
     \<lparr>Findalldevs = ([\<lparr>Name = ''lo''\<rparr>, \<lparr>Name = ''eth0''\<rparr>], None),
      Openlive = (\<lambda>name. (Some (Pcap 0), None))\<rparr>"

definition scenario_settings :: Settings where
  "scenario_settings = \<lparr>Device = ''eth0''\<rparr>"

definition scenario_packet1 :: Packet where
  "scenario_packet1 =
     \<lparr>Headers = [H_Ip, H_Tcp \<lparr>SrcPort = 50000, DestPort = 80, Seq = 1, Tcphdr.Ack = 42,
                                Flags = 0x10\<rparr>],
      Payload = ''GET /''\<rparr>"

definition scenario_packet2 :: Packet where
  "scenario_packet2 =
     \<lparr>Headers = [H_Ip, H_Tcp \<lparr>SrcPort = 50000, DestPort = 80, Seq = 6, Tcphdr.Ack = 42,
                                Flags = 0x18\<rparr>],
      Payload = '' HTTP/1.1'' @ [CHR 0x0D, CHR 0x0A, CHR 0x0D, CHR 0x0A]\<rparr>"

text \<open>Both packets are captured, the dispatcher handles what reaches it, the message
  appends it and reports, and the dispatcher hands the message over.\<close>

definition scenario_schedule :: "action list" where
  "scenario_schedule =
     [A_capture (Some scenario_packet1), A_capture (Some scenario_packet2),
      A_listen Case_packet, A_message 0, A_listen Case_del_message]"

text \<open>The packets the capture loop read during a schedule (a read may also return
  \<^verbatim>\<open>nil\<close>), and whether a watchdog fired in it.\<close>

fun captured :: "action list \<Rightarrow> Packet list" where
  "captured [] = []"
| "captured (A_capture (Some pkt) # acts) = pkt # captured acts"
| "captured (a # acts) = captured acts"

fun is_timeout :: "action \<Rightarrow> bool" where
  "is_timeout (A_timeout r) = True"
| "is_timeout a = False"

definition watchdog_free :: "action list \<Rightarrow> bool" where
  "watchdog_free acts = list_all (\<lambda>a. \<not> is_timeout a) acts"

text \<open>
  The states the scenario passes through when no watchdog fires: nothing has reached
  the dispatcher, the second packet waits on the capture queue, it waits at its new
  message, the message has appended it and reported, the message waits for
  \<^verbatim>\<open>Receive\<close>, it has been received.
\<close>

datatype stage = At_start | Queued | At_message | Reported | Deliverable | Delivered

definition scenario_message :: TCPMessage where
  "scenario_message =
     \<lparr>TCPMessage.Ack = 42, c_packets = [], buffer = Payload scenario_packet2,
      status = Completed\<rparr>"

text \<open>
  The scenario's description of a packet: a decoded packet whose second header is a
  TCP header with acknowledgment number 42 and the given destination port, push flag
  and payload.
\<close>

definition flow42_packet :: "int \<Rightarrow> bool \<Rightarrow> string \<Rightarrow> Packet \<Rightarrow> bool" where
  "flow42_packet prt push payload p =
     (case Headers p of
        _ # H_Tcp h # _ \<Rightarrow>
          Tcphdr.Ack h = 42 \<and> uint (DestPort h) = prt \<and> bit (Flags h) 3 = push \<and>
          Payload p = payload
      | _ \<Rightarrow> False)"

definition scenario_payload1 :: string where
  "scenario_payload1 = ''GET /''"

definition scenario_payload2 :: string where
  "scenario_payload2 = '' HTTP/1.1'' @ [CHR 0x0D, CHR 0x0A, CHR 0x0D, CHR 0x0A]"

text \<open>The stages for a listener on port \<open>prt\<close> and a second packet \<open>p2\<close>.\<close>

definition scenario_stage :: "int \<Rightarrow> Packet \<Rightarrow> stage \<Rightarrow> world \<Rightarrow> bool" where
  "scenario_stage prt p2 s t =
     (port t = prt
      \<and> RAWTCPListener.c_packets t = (if s = Queued then [p2] else [])
      \<and> c_del_message t = (if s = Reported then [0] else [])
      \<and> c_messages t = (if s = Deliverable then [0] else [])
      \<and> heap t =
          (if s = At_start \<or> s = Queued then []
           else if s = At_message then
             [(NewTCPMessage 42)\<lparr>TCPMessage.c_packets := [p2]\<rparr>]
           else [\<lparr>TCPMessage.Ack = 42, c_packets = [], buffer = Payload p2,
                   status = Completed\<rparr>])
      \<and> messages t = (if s = At_message \<or> s = Reported then [42 \<mapsto> 0] else Map.empty))"

text \<open>The schedule of the scenario for any two packets.\<close>

definition delivery_schedule :: "Packet \<Rightarrow> Packet \<Rightarrow> action list" where
  "delivery_schedule p1 p2 =
     [A_capture (Some p1), A_capture (Some p2),
      A_listen Case_packet, A_message 0, A_listen Case_del_message]"

section \<open>A packet whose TCP header is not the second header\<close>

text \<open>
  A decoded packet has its TCP header, if any, somewhere among its headers: the
  TCP header of a packet, as a claim about "its TCP destination port" reads it, is
  the first TCP header in the list.
\<close>

fun first_tcp_header :: "header list \<Rightarrow> Tcphdr option" where
  "first_tcp_header [] = None"
| "first_tcp_header (H_Tcp h # hs) = Some h"
| "first_tcp_header (x # hs) = first_tcp_header hs"

text \<open>A TCP segment to port 80 with the push flag, behind two outer headers.\<close>

definition tunnelled_tcp :: Tcphdr where
  "tunnelled_tcp =
     \<lparr>SrcPort = 50000, DestPort = 80, Seq = 1, Tcphdr.Ack = 42, Flags = 0x18\<rparr>"

definition tunnelled_packet :: Packet where
  "tunnelled_packet =
     \<lparr>Headers = [H_Ip, H_Ip, H_Tcp tunnelled_tcp], Payload = ''GET /''\<rparr>"

definition listener_on_80 :: world where
  "listener_on_80 =
     \<lparr>messages = Map.empty, c_packets = [], c_messages = [], c_del_message = [],
      sniffer = Some (Pcap 0), device = ''eth0'', port = 80, heap = []\<rparr>"

text \<open>An environment in which opening the capture handle fails.\<close>

definition failing_env :: pcap_env where
  "failing_env =
     \<lparr>Findalldevs = ([\<lparr>Name = ''eth0''\<rparr>], None),
      Openlive = (\<lambda>name. (None, Some ''permission denied''))\<rparr>"

section \<open>Basic facts\<close>

lemma psh_bit: "(w AND TCP_PSH \<noteq> 0) = bit w 3" for w :: "16 word"
proof -
  have "(8::16 word) = 2 ^ 3" by simp
  then show ?thesis
    unfolding TCP_PSH_def by (simp only: and_exp_eq_0_iff_not_bit) simp
qed

lemma chan_send_not_Panic [simp]: "chan_send q x \<noteq> Panic"
  by (simp add: chan_send_def)

lemma tcp_second_iff:
  "tcp_second p \<longleftrightarrow> 2 \<le> length (Headers p) \<and> (\<exists>h. Headers p ! 1 = H_Tcp h)"
proof (cases "Headers p")
  case Nil
  then show ?thesis by (simp add: tcp_second_def)
next
  case (Cons a as)
  then show ?thesis
    by (cases as) (auto simp: tcp_second_def split: header.splits)
qed

lemma readRAWSocket_iter_Some:
  "readRAWSocket_iter t nxt = Some p \<Longrightarrow> nxt = Some p \<and> tcp_second p"
  by (auto simp: readRAWSocket_iter_def tcp_second_iff
      split: option.splits if_splits header.splits)

lemma processTCPPacket_not_Panic: "tcp_second p \<Longrightarrow> processTCPPacket t p \<noteq> Panic"
  by (auto simp: processTCPPacket_def tcp_second_iff Let_def split: option.splits)

lemma emit_self_cases:
  "emit_self r b t = Return t' \<Longrightarrow>
     t' = t \<or> t' = t\<lparr>c_del_message := c_del_message t @ [r]\<rparr>"
  by (auto simp: emit_self_def chan_send_def split: if_splits)

lemma emit_self_not_Panic [simp]: "emit_self r b t \<noteq> Panic"
  by (auto simp: emit_self_def chan_send_def)

lemma emit_self_same:
  "emit_self r b t = Return t' \<Longrightarrow> messages t' = messages t \<and> heap t' = heap t"
  by (auto dest!: emit_self_cases)

lemma find_interface_eq:
  "find_interface ds wanted = (if wanted \<in> Name ` set ds then wanted else '''')"
  by (induction ds) auto

lemma RAWTCPListen_Return:
  assumes "snd (RAWTCPListen env st dev prt) = Return t0"
  shows "messages t0 = Map.empty \<and> RAWTCPListener.c_packets t0 = [] \<and> c_messages t0 = []
       \<and> c_del_message t0 = [] \<and> heap t0 = [] \<and> device t0 = dev \<and> port t0 = prt
       \<and> sniffer t0 \<noteq> None"
  using assms
  by (auto simp: RAWTCPListen_def startSniffer_def Let_def
      split: prod.splits option.splits if_splits)

lemma program_Return:
  assumes "program env st dev prt acts = Return t"
  obtains t0 where "snd (RAWTCPListen env st dev prt) = Return t0" and "run acts t0 = Return t"
  using assms by (auto simp: program_def split: outcome.splits)

section \<open>The capture queue holds TCP packets only\<close>

lemma step_packets_ok:
  assumes "packets_ok t" and "step a t = Return t'"
  shows "packets_ok t'"
proof (cases a)
  case (A_capture nxt)
  with assms show ?thesis
    by (auto simp: packets_ok_def readRAWSocket_def chan_send_def
        dest: readRAWSocket_iter_Some split: option.splits if_splits)
next
  case (A_listen c)
  with assms show ?thesis
    by (cases c)
       (auto simp: packets_ok_def listen_iter_def processTCPPacket_def send_to_message_def
          chan_send_def Let_def
          split: list.splits option.splits if_splits header.splits outcome.splits)
next
  case (A_message r)
  with assms show ?thesis
    by (auto simp: packets_ok_def message_receive_def
          split: list.splits if_splits prod.splits dest!: emit_self_cases)
next
  case (A_timeout r)
  with assms show ?thesis
    by (auto simp: packets_ok_def message_timeout_def
          split: list.splits if_splits prod.splits dest!: emit_self_cases)
next
  case A_Receive
  with assms show ?thesis
    by (auto simp: packets_ok_def Receive_def split: list.splits)
qed

lemma step_not_Panic:
  assumes "packets_ok t"
  shows "step a t \<noteq> Panic"
proof (cases a)
  case (A_capture nxt)
  then show ?thesis
    by (auto simp: readRAWSocket_def chan_send_def split: option.splits)
next
  case (A_listen c)
  with assms show ?thesis
    by (cases c)
       (auto simp: packets_ok_def listen_iter_def processTCPPacket_not_Panic
          split: list.splits outcome.splits)
next
  case (A_message r)
  then show ?thesis
    by (auto simp: message_receive_def split: list.splits prod.splits)
next
  case (A_timeout r)
  then show ?thesis
    by (auto simp: message_timeout_def split: prod.splits)
next
  case A_Receive
  then show ?thesis
    by (auto simp: Receive_def split: list.splits)
qed

lemma run_packets_ok:
  "packets_ok t \<Longrightarrow> run acts t = Return t' \<Longrightarrow> packets_ok t'"
proof (induction acts arbitrary: t)
  case Nil
  then show ?case by simp
next
  case (Cons a acts)
  then show ?case
    by (auto split: outcome.splits dest: step_packets_ok)
qed

lemma run_not_Panic: "packets_ok t \<Longrightarrow> run acts t \<noteq> Panic"
proof (induction acts arbitrary: t)
  case Nil
  then show ?case by simp
next
  case (Cons a acts)
  then show ?case
    using step_not_Panic [of t a]
    by (auto split: outcome.splits dest: step_packets_ok)
qed

section \<open>Every table entry is filed under its message's Ack\<close>

lemma table_okD:
  "table_ok t \<Longrightarrow> messages t k = Some r \<Longrightarrow>
     r < length (heap t) \<and> TCPMessage.Ack (heap t ! r) = k"
  by (simp add: table_ok_def)

lemma table_ok_heap_update:
  assumes "table_ok t" and "TCPMessage.Ack m' = TCPMessage.Ack (heap t ! r)"
  shows "table_ok (t\<lparr>heap := (heap t)[r := m']\<rparr>)"
  unfolding table_ok_def
proof (intro allI impI)
  fix k ra
  assume "messages (t\<lparr>heap := (heap t)[r := m']\<rparr>) k = Some ra"
  then have "messages t k = Some ra" by simp
  from table_okD [OF assms(1) this] assms(2)
  show "ra < length (heap (t\<lparr>heap := (heap t)[r := m']\<rparr>)) \<and>
        TCPMessage.Ack (heap (t\<lparr>heap := (heap t)[r := m']\<rparr>) ! ra) = k"
    by (cases "ra = r") simp_all
qed

lemma table_ok_send_to_message:
  "table_ok t \<Longrightarrow> table_ok (send_to_message r p t)"
  unfolding send_to_message_def by (rule table_ok_heap_update) simp_all

lemma table_ok_register:
  assumes "table_ok t"
  shows "table_ok (t\<lparr>messages := (messages t)(ack \<mapsto> length (heap t)),
                     heap := heap t @ [NewTCPMessage ack]\<rparr>)"
    (is "table_ok ?t'")
  unfolding table_ok_def
proof (intro allI impI)
  fix k r
  assume reg: "messages ?t' k = Some r"
  show "r < length (heap ?t') \<and> TCPMessage.Ack (heap ?t' ! r) = k"
  proof (cases "k = ack")
    case True
    with reg have "r = length (heap t)" by simp
    with True show ?thesis by (simp add: NewTCPMessage_def)
  next
    case False
    with reg have "messages t k = Some r" by simp
    from table_okD [OF assms this] show ?thesis by (simp add: nth_append)
  qed
qed

lemma table_ok_processTCPPacket:
  "table_ok t \<Longrightarrow> processTCPPacket t p = Return t' \<Longrightarrow> table_ok t'"
  by (auto simp: processTCPPacket_def Let_def table_ok_send_to_message table_ok_register
      split: if_splits header.splits option.splits)

lemma table_ok_queues:
  "table_ok t \<Longrightarrow> table_ok (t\<lparr>c_packets := q\<rparr>)"
  "table_ok t \<Longrightarrow> table_ok (t\<lparr>c_messages := q'\<rparr>)"
  "table_ok t \<Longrightarrow> table_ok (t\<lparr>c_del_message := q'\<rparr>)"
  by (simp_all add: table_ok_def)

lemma table_ok_emit_self:
  "table_ok t \<Longrightarrow> emit_self r b t = Return t' \<Longrightarrow> table_ok t'"
  by (auto dest!: emit_self_cases simp: table_ok_queues)

lemma Ack_append_packet: "TCPMessage.Ack (fst (append_packet m p)) = TCPMessage.Ack m"
  by (simp add: append_packet_def Let_def)

lemma Ack_expire: "TCPMessage.Ack (fst (expire m)) = TCPMessage.Ack m"
  by (simp add: expire_def)

lemma step_table_ok:
  assumes "table_ok t" and "step a t = Return t'"
  shows "table_ok t'"
proof (cases a)
  case (A_capture nxt)
  with assms show ?thesis
    by (auto simp: readRAWSocket_def chan_send_def table_ok_queues
        split: option.splits if_splits)
next
  case (A_listen c)
  show ?thesis
  proof (cases c)
    case Case_del_message
    with A_listen assms show ?thesis
      by (auto simp: listen_iter_def chan_send_def table_ok_def
          split: list.splits if_splits)
  next
    case Case_packet
    with A_listen assms show ?thesis
      by (auto simp: listen_iter_def split: list.splits
          intro: table_ok_processTCPPacket [OF table_ok_queues(1)])
  qed
next
  case (A_message r)
  show ?thesis
  proof (cases "TCPMessage.c_packets (heap t ! r)")
    case Nil
    with A_message assms show ?thesis by (simp add: message_receive_def split: if_splits)
  next
    case (Cons p rest)
    obtain m' emitted
      where ap: "append_packet ((heap t ! r)\<lparr>TCPMessage.c_packets := rest\<rparr>) p = (m', emitted)"
      by (cases "append_packet ((heap t ! r)\<lparr>TCPMessage.c_packets := rest\<rparr>) p")
    from Ack_append_packet [of "(heap t ! r)\<lparr>TCPMessage.c_packets := rest\<rparr>" p] ap
    have "TCPMessage.Ack m' = TCPMessage.Ack (heap t ! r)" by simp
    from table_ok_heap_update [OF assms(1) this]
    have "table_ok (t\<lparr>heap := (heap t)[r := m']\<rparr>)" .
    moreover from A_message assms(2) Cons ap
    have "emit_self r emitted (t\<lparr>heap := (heap t)[r := m']\<rparr>) = Return t'"
      by (simp add: message_receive_def split: if_splits)
    ultimately show ?thesis by (rule table_ok_emit_self)
  qed
next
  case (A_timeout r)
  obtain m' emitted where ex: "expire (heap t ! r) = (m', emitted)"
    by (cases "expire (heap t ! r)")
  from Ack_expire [of "heap t ! r"] ex
  have "TCPMessage.Ack m' = TCPMessage.Ack (heap t ! r)" by simp
  from table_ok_heap_update [OF assms(1) this]
  have "table_ok (t\<lparr>heap := (heap t)[r := m']\<rparr>)" .
  moreover from A_timeout assms(2) ex
  have "emit_self r emitted (t\<lparr>heap := (heap t)[r := m']\<rparr>) = Return t'"
    by (simp add: message_timeout_def split: if_splits)
  ultimately show ?thesis by (rule table_ok_emit_self)
next
  case A_Receive
  with assms show ?thesis
    by (auto simp: Receive_def table_ok_queues split: list.splits)
qed

lemma run_table_ok:
  "table_ok t \<Longrightarrow> run acts t = Return t' \<Longrightarrow> table_ok t'"
proof (induction acts arbitrary: t)
  case Nil
  then show ?case by simp
next
  case (Cons a acts)
  then show ?case
    by (auto split: outcome.splits dest: step_table_ok)
qed

section \<open>Executions of the whole program\<close>

lemma initial_invariants:
  assumes "snd (RAWTCPListen env st dev prt) = Return t0"
  shows "table_ok t0" and "packets_ok t0"
  using RAWTCPListen_Return [OF assms] by (simp_all add: table_ok_def packets_ok_def)

lemma program_invariants:
  assumes "program env st dev prt acts = Return t"
  shows "table_ok t" and "packets_ok t"
proof -
  from assms obtain t0
    where t0: "snd (RAWTCPListen env st dev prt) = Return t0" and r: "run acts t0 = Return t"
    by (rule program_Return)
  from initial_invariants(1) [OF t0] r show "table_ok t" by (rule run_table_ok)
  from initial_invariants(2) [OF t0] r show "packets_ok t" by (rule run_packets_ok)
qed

lemma program_not_Panic:
  assumes "snd (RAWTCPListen env st dev prt) \<noteq> Panic"
  shows "program env st dev prt acts \<noteq> Panic"
proof (cases "snd (RAWTCPListen env st dev prt)")
  case (Return t0)
  then have "packets_ok t0" by (rule initial_invariants)
  then have "run acts t0 \<noteq> Panic" by (rule run_not_Panic)
  with Return show ?thesis by (simp add: program_def)
qed (use assms in \<open>simp_all add: program_def\<close>)

lemma processTCPPacket_existing:
  assumes "table_ok t" and "2 \<le> length (Headers packet)"
    and "Headers packet ! 1 = H_Tcp header" and "messages t (Tcphdr.Ack header) = Some message"
  shows "\<exists>t'. processTCPPacket t packet = Return t' \<and> messages t' = messages t \<and>
           length (heap t') = length (heap t) \<and>
           TCPMessage.c_packets (heap t' ! message) =
             TCPMessage.c_packets (heap t ! message) @ [packet]"
proof -
  from table_okD [OF assms(1,4)] have "message < length (heap t)" by simp
  with assms(2-4) show ?thesis
    by (simp add: processTCPPacket_def send_to_message_def)
qed

lemma processTCPPacket_fresh:
  assumes "2 \<le> length (Headers packet)"
    and "Headers packet ! 1 = H_Tcp header" and "messages t (Tcphdr.Ack header) = None"
  shows "\<exists>t'. processTCPPacket t packet = Return t' \<and>
           messages t' = (messages t)(Tcphdr.Ack header \<mapsto> length (heap t)) \<and>
           heap t' = heap t @
             [(NewTCPMessage (Tcphdr.Ack header))\<lparr>TCPMessage.c_packets := [packet]\<rparr>]"
  using assms
  by (simp add: processTCPPacket_def send_to_message_def Let_def NewTCPMessage_def)

lemma step_allocates:
  assumes "step a t = Return t'"
  shows "(messages t' = messages t \<or> (\<exists>k. messages t' = (messages t)(k := None)))
           \<and> length (heap t') = length (heap t)
         \<or> (\<exists>k. messages t k = None \<and> messages t' = (messages t)(k \<mapsto> length (heap t)) \<and>
                length (heap t') = Suc (length (heap t)) \<and>
                TCPMessage.Ack (heap t' ! length (heap t)) = k)"
proof (cases a)
  case (A_capture nxt)
  with assms show ?thesis
    by (auto simp: readRAWSocket_def chan_send_def split: option.splits if_splits)
next
  case (A_listen c)
  show ?thesis
  proof (cases c)
    case Case_del_message
    with A_listen assms show ?thesis
      by (auto simp: listen_iter_def chan_send_def split: list.splits if_splits)
  next
    case Case_packet
    with A_listen assms show ?thesis
      by (auto simp: listen_iter_def processTCPPacket_def send_to_message_def Let_def
          NewTCPMessage_def
          split: list.splits if_splits header.splits option.splits)
  qed
next
  case (A_message r)
  with assms show ?thesis
    by (auto simp: message_receive_def split: list.splits if_splits prod.splits
        dest!: emit_self_same)
next
  case (A_timeout r)
  with assms show ?thesis
    by (auto simp: message_timeout_def split: if_splits prod.splits dest!: emit_self_same)
next
  case A_Receive
  with assms show ?thesis
    by (auto simp: Receive_def split: list.splits)
qed

section \<open>The scenario, state by state\<close>

lemma scenario_start:
  "RAWTCPListen scenario_env scenario_settings dev 80 =
     ([Ev_Findalldevs, Ev_Openlive ''eth0'', Ev_Setfilter (Some (Pcap 0)) ''tcp dst port P''],
      Return \<lparr>messages = Map.empty, c_packets = [], c_messages = [], c_del_message = [],
              sniffer = Some (Pcap 0), device = dev, port = 80, heap = []\<rparr>)"
  by (simp add: RAWTCPListen_def startSniffer_def scenario_env_def scenario_settings_def
      filter_expr_def intstring_def encoderune_def char_of_def Let_def)

lemma scenario_queued:
  "program scenario_env scenario_settings ''eth0'' 80
     [A_capture (Some scenario_packet1), A_capture (Some scenario_packet2)] =
   Return \<lparr>messages = Map.empty, c_packets = [scenario_packet2], c_messages = [],
           c_del_message = [], sniffer = Some (Pcap 0), device = ''eth0'', port = 80,
           heap = []\<rparr>"
  by (simp add: program_def scenario_start readRAWSocket_def
      readRAWSocket_iter_def scenario_packet1_def scenario_packet2_def TCP_PSH_def
      chan_send_def chan_cap_def)

lemma scenario_at_message:
  "program scenario_env scenario_settings ''eth0'' 80
     [A_capture (Some scenario_packet1), A_capture (Some scenario_packet2),
      A_listen Case_packet] =
   Return \<lparr>messages = [42 \<mapsto> 0], c_packets = [], c_messages = [],
           c_del_message = [], sniffer = Some (Pcap 0), device = ''eth0'', port = 80,
           heap = [(NewTCPMessage 42)\<lparr>TCPMessage.c_packets := [scenario_packet2]\<rparr>]\<rparr>"
  by (simp add: program_def scenario_start readRAWSocket_def
      readRAWSocket_iter_def scenario_packet1_def scenario_packet2_def TCP_PSH_def
      chan_send_def chan_cap_def listen_iter_def processTCPPacket_def send_to_message_def
      NewTCPMessage_def)


lemma scenario_run:
  "program scenario_env scenario_settings ''eth0'' 80 scenario_schedule =
     Return \<lparr>messages = Map.empty, c_packets = [], c_messages = [0], c_del_message = [],
             sniffer = Some (Pcap 0), device = ''eth0'', port = 80,
             heap = [scenario_message]\<rparr>"
  by (simp add: program_def scenario_start scenario_schedule_def readRAWSocket_def
      readRAWSocket_iter_def scenario_packet1_def scenario_packet2_def TCP_PSH_def
      chan_send_def chan_cap_def listen_iter_def processTCPPacket_def send_to_message_def
      NewTCPMessage_def message_receive_def append_packet_def push_flag_def emit_self_def
      scenario_message_def)

section \<open>The message table\<close>

text \<open>
  Claim C1. In every state \<open>t\<close> the program reaches after the constructor has
  returned, every entry of the message table points to an allocated message whose
  \<^verbatim>\<open>Ack\<close> is the entry's key, so two entries whose messages have the same \<^verbatim>\<open>Ack\<close>
  are one entry: the table holds at most one message per acknowledgment number.
  \<^verbatim>\<open>processTCPPacket\<close> on a packet whose \<^verbatim>\<open>Ack\<close> has an entry leaves the table and
  the number of messages as they are and hands the packet to the entry's message; on
  a packet whose \<^verbatim>\<open>Ack\<close> has no entry it allocates one new message for that \<^verbatim>\<open>Ack\<close>,
  registers it and hands it the packet. No turn of any goroutine allocates or
  registers a message otherwise: a turn either leaves the table as it is or deletes
  one key, with the same messages allocated, or registers one newly allocated
  message at a key that had no entry.
\<close>

theorem message_table_one_per_ack:
  assumes "program env st dev prt acts = Return t"
  shows "(\<forall>k r. messages t k = Some r \<longrightarrow>
            r < length (heap t) \<and> TCPMessage.Ack (heap t ! r) = k)
       \<and> (\<forall>k1 k2 r1 r2. messages t k1 = Some r1 \<and> messages t k2 = Some r2 \<and>
            TCPMessage.Ack (heap t ! r1) = TCPMessage.Ack (heap t ! r2) \<longrightarrow>
            k1 = k2 \<and> r1 = r2)
       \<and> (\<forall>packet header message.
            2 \<le> length (Headers packet) \<and> Headers packet ! 1 = H_Tcp header \<and>
            messages t (Tcphdr.Ack header) = Some message \<longrightarrow>
            (\<exists>t'. processTCPPacket t packet = Return t' \<and> messages t' = messages t \<and>
                  length (heap t') = length (heap t) \<and>
                  TCPMessage.c_packets (heap t' ! message) =
                    TCPMessage.c_packets (heap t ! message) @ [packet]))
       \<and> (\<forall>packet header.
            2 \<le> length (Headers packet) \<and> Headers packet ! 1 = H_Tcp header \<and>
            messages t (Tcphdr.Ack header) = None \<longrightarrow>
            (\<exists>t'. processTCPPacket t packet = Return t' \<and>
                  messages t' = (messages t)(Tcphdr.Ack header \<mapsto> length (heap t)) \<and>
                  heap t' = heap t @
                    [(NewTCPMessage (Tcphdr.Ack header))\<lparr>TCPMessage.c_packets := [packet]\<rparr>]))
       \<and> (\<forall>a t'. step a t = Return t' \<longrightarrow>
            (messages t' = messages t \<or> (\<exists>k. messages t' = (messages t)(k := None)))
              \<and> length (heap t') = length (heap t)
            \<or> (\<exists>k. messages t k = None \<and>
                   messages t' = (messages t)(k \<mapsto> length (heap t)) \<and>
                   length (heap t') = Suc (length (heap t)) \<and>
                   TCPMessage.Ack (heap t' ! length (heap t)) = k))"
proof -
  from assms have ok: "table_ok t" by (rule program_invariants)
  have 1: "\<forall>k r. messages t k = Some r \<longrightarrow>
            r < length (heap t) \<and> TCPMessage.Ack (heap t ! r) = k"
    using ok by (simp add: table_ok_def)
  have 2: "\<forall>k1 k2 r1 r2. messages t k1 = Some r1 \<and> messages t k2 = Some r2 \<and>
            TCPMessage.Ack (heap t ! r1) = TCPMessage.Ack (heap t ! r2) \<longrightarrow>
            k1 = k2 \<and> r1 = r2"
  proof (intro allI impI)
    fix k1 k2 r1 r2
    assume h: "messages t k1 = Some r1 \<and> messages t k2 = Some r2 \<and>
            TCPMessage.Ack (heap t ! r1) = TCPMessage.Ack (heap t ! r2)"
    with 1 have "k1 = k2" by metis
    with h show "k1 = k2 \<and> r1 = r2" by auto
  qed
  from 1 2 processTCPPacket_existing [OF ok] processTCPPacket_fresh step_allocates
  show ?thesis by blast
qed

theorem message_table_one_per_ack_witness:
  "processTCPPacket
     \<lparr>messages = [42 \<mapsto> 0], c_packets = [], c_messages = [],
      c_del_message = [], sniffer = Some (Pcap 0), device = ''eth0'', port = 80,
      heap = [(NewTCPMessage 42)\<lparr>TCPMessage.c_packets := [scenario_packet2]\<rparr>]\<rparr>
     scenario_packet2 =
   Return
     \<lparr>messages = [42 \<mapsto> 0], c_packets = [], c_messages = [],
      c_del_message = [], sniffer = Some (Pcap 0), device = ''eth0'', port = 80,
      heap = [(NewTCPMessage 42)
               \<lparr>TCPMessage.c_packets := [scenario_packet2, scenario_packet2]\<rparr>]\<rparr>"
proof -
  let ?t = "\<lparr>messages = [42 \<mapsto> 0], c_packets = [], c_messages = [],
      c_del_message = [], sniffer = Some (Pcap 0), device = ''eth0'', port = 80,
      heap = [(NewTCPMessage 42)\<lparr>TCPMessage.c_packets := [scenario_packet2]\<rparr>]\<rparr>"
  let ?h = "\<lparr>SrcPort = 50000, DestPort = 80, Seq = 6, Tcphdr.Ack = 42, Flags = 0x18\<rparr>"
  have "2 \<le> length (Headers scenario_packet2) \<and> Headers scenario_packet2 ! 1 = H_Tcp ?h \<and>
        messages ?t (Tcphdr.Ack ?h) = Some 0"
    by (simp add: scenario_packet2_def)
  with message_table_one_per_ack [OF scenario_at_message]
  have "\<exists>t'. processTCPPacket ?t scenario_packet2 = Return t' \<and> messages t' = messages ?t \<and>
          length (heap t') = length (heap ?t) \<and>
          TCPMessage.c_packets (heap t' ! 0) =
            TCPMessage.c_packets (heap ?t ! 0) @ [scenario_packet2]"
    by blast
  then show ?thesis
    by (simp add: processTCPPacket_def scenario_packet2_def send_to_message_def
        NewTCPMessage_def)
qed

section \<open>The capture loop\<close>

text \<open>
  Claim C2, as stated, fails. A decoded packet whose TCP header is its third header,
  with destination port 80 and the push flag set, read by a listener on port 80, is
  not sent on the capture queue: the turn leaves the state as it is.
\<close>

theorem capture_drops_tcp_behind_two_headers:
  "first_tcp_header (Headers tunnelled_packet) = Some tunnelled_tcp
   \<and> uint (DestPort tunnelled_tcp) = port listener_on_80
   \<and> bit (Flags tunnelled_tcp) 3
   \<and> readRAWSocket_iter listener_on_80 (Some tunnelled_packet) = None
   \<and> readRAWSocket listener_on_80 (Some tunnelled_packet) = Return listener_on_80"
  by (simp add: tunnelled_packet_def tunnelled_tcp_def listener_on_80_def
      readRAWSocket_def readRAWSocket_iter_def psh_bit [symmetric] TCP_PSH_def)

text \<open>
  Claim C2, amended. For every result of a read, one turn of the capture loop sends
  the packet on the capture queue if and only if the packet has at least two decoded
  headers, its second header is a TCP header, that header's destination port, read
  as an integer, equals the listener's port, and bit 3 of its flags (PSH) is set.
  The send appends the packet to the queue, or waits while the queue is full. Every
  other packet, and a \<^verbatim>\<open>nil\<close> read, leaves the state as it is: the turn returns, with
  no output, no exit and no panic.
\<close>

theorem capture_filter_second_header:
  "readRAWSocket_iter t (Some pkt) =
     (if 2 \<le> length (Headers pkt) \<and>
         (\<exists>header. Headers pkt ! 1 = H_Tcp header \<and>
            uint (DestPort header) = port t \<and> bit (Flags header) 3)
      then Some pkt else None)
   \<and> readRAWSocket t' (Some pkt) =
     (if 2 \<le> length (Headers pkt) \<and>
         (\<exists>header. Headers pkt ! 1 = H_Tcp header \<and>
            uint (DestPort header) = port t' \<and> bit (Flags header) 3)
      then map_outcome (\<lambda>q. t'\<lparr>c_packets := q\<rparr>)
             (chan_send (RAWTCPListener.c_packets t') pkt)
      else Return t')
   \<and> chan_send (RAWTCPListener.c_packets t') pkt =
       (if length (RAWTCPListener.c_packets t') < 100
        then Return (RAWTCPListener.c_packets t' @ [pkt]) else Blocked)
   \<and> readRAWSocket_iter t None = None
   \<and> readRAWSocket t' None = Return t'"
proof -
  have iter: "readRAWSocket_iter u (Some pkt) =
     (if 2 \<le> length (Headers pkt) \<and>
         (\<exists>header. Headers pkt ! 1 = H_Tcp header \<and>
            uint (DestPort header) = port u \<and> bit (Flags header) 3)
      then Some pkt else None)" for u :: "'b RAWTCPListener_scheme"
    by (cases "Headers pkt ! 1")
       (auto simp: readRAWSocket_iter_def psh_bit)
  have nil: "readRAWSocket_iter u None = None" for u :: "'b RAWTCPListener_scheme"
    by (simp add: readRAWSocket_iter_def)
  from iter [of t] iter [of t'] nil [of t] nil [of t'] show ?thesis
    by (auto simp: readRAWSocket_def chan_send_def chan_cap_def)
qed

text \<open>
  Claim C9. The capture loop sends a packet on the capture queue only if the packet
  has at least two headers and the second is a TCP header. So in every state the
  program reaches after the constructor has returned, every packet waiting on the
  capture queue is of that kind, the dispatcher's turn on the next packet does not
  panic, and no execution panics at all: the index and the type assertion in
  \<^verbatim>\<open>processTCPPacket\<close> never fail.
\<close>

theorem queued_packets_have_tcp_header:
  "(\<forall>nxt p. readRAWSocket_iter t1 nxt = Some p \<longrightarrow>
      nxt = Some p \<and> 2 \<le> length (Headers p) \<and> (\<exists>h. Headers p ! 1 = H_Tcp h))
   \<and> (\<forall>p t2. 2 \<le> length (Headers p) \<and> (\<exists>h. Headers p ! 1 = H_Tcp h) \<longrightarrow>
        processTCPPacket t2 p \<noteq> Panic)
   \<and> (program env st dev prt acts = Return t \<longrightarrow>
        (\<forall>p \<in> set (RAWTCPListener.c_packets t).
           2 \<le> length (Headers p) \<and> (\<exists>h. Headers p ! 1 = H_Tcp h)) \<and>
        listen_iter Case_packet t \<noteq> Panic)
   \<and> (snd (RAWTCPListen env st dev prt) \<noteq> Panic \<longrightarrow> program env st dev prt acts \<noteq> Panic)"
proof -
  have a: "\<forall>nxt p. readRAWSocket_iter t1 nxt = Some p \<longrightarrow>
      nxt = Some p \<and> 2 \<le> length (Headers p) \<and> (\<exists>h. Headers p ! 1 = H_Tcp h)"
    using readRAWSocket_iter_Some [of t1] by (simp add: tcp_second_iff)
  have b: "(\<forall>p \<in> set (RAWTCPListener.c_packets t).
           2 \<le> length (Headers p) \<and> (\<exists>h. Headers p ! 1 = H_Tcp h)) \<and>
        listen_iter Case_packet t \<noteq> Panic"
    if "program env st dev prt acts = Return t"
  proof -
    from that have ok: "packets_ok t" by (rule program_invariants)
    then have "\<forall>p \<in> set (RAWTCPListener.c_packets t). tcp_second p"
      by (simp add: packets_ok_def list_all_iff)
    moreover from step_not_Panic [OF ok, of "A_listen Case_packet"]
    have "listen_iter Case_packet t \<noteq> Panic" by simp
    ultimately show ?thesis by (simp add: tcp_second_iff)
  qed
  have c: "\<forall>p t2. 2 \<le> length (Headers p) \<and> (\<exists>h. Headers p ! 1 = H_Tcp h) \<longrightarrow>
        processTCPPacket t2 p \<noteq> Panic"
    using processTCPPacket_not_Panic by (simp add: tcp_second_iff)
  from a b c program_not_Panic show ?thesis by blast
qed

theorem queued_packets_have_tcp_header_witness:
  "readRAWSocket_iter
     \<lparr>messages = Map.empty, c_packets = [], c_messages = [], c_del_message = [],
      sniffer = Some (Pcap 0), device = ''eth0'', port = 80, heap = []\<rparr>
     (Some scenario_packet2) = Some scenario_packet2
   \<and> 2 \<le> length (Headers scenario_packet2)
   \<and> (\<exists>h. Headers scenario_packet2 ! 1 = H_Tcp h)
   \<and> listen_iter Case_packet
       \<lparr>messages = Map.empty, c_packets = [scenario_packet2], c_messages = [],
        c_del_message = [], sniffer = Some (Pcap 0), device = ''eth0'', port = 80,
        heap = []\<rparr> \<noteq> Panic
   \<and> program scenario_env scenario_settings ''eth0'' 80
       [A_capture (Some scenario_packet1), A_capture (Some scenario_packet2),
        A_listen Case_packet] \<noteq> Panic"
proof -
  let ?t = "\<lparr>messages = Map.empty, c_packets = [], c_messages = [], c_del_message = [],
      sniffer = Some (Pcap 0), device = ''eth0'', port = 80, heap = []\<rparr>"
  have a: "readRAWSocket_iter ?t (Some scenario_packet2) = Some scenario_packet2"
    by (simp add: readRAWSocket_iter_def scenario_packet2_def TCP_PSH_def)
  have b: "snd (RAWTCPListen scenario_env scenario_settings ''eth0'' 80) \<noteq> Panic"
    by (simp add: scenario_start)
  from a b scenario_queued
    queued_packets_have_tcp_header [of ?t scenario_env scenario_settings "''eth0''" 80
          "[A_capture (Some scenario_packet1), A_capture (Some scenario_packet2)]"]
    queued_packets_have_tcp_header [of ?t scenario_env scenario_settings "''eth0''" 80
          "[A_capture (Some scenario_packet1), A_capture (Some scenario_packet2),
            A_listen Case_packet]"]
  show ?thesis by auto
qed

section \<open>The dispatcher's turn on a finished message\<close>



section \<open>The disposition of a message\<close>

lemma msg_step_eq:
  "snd (msg_step m e) = (status m = Building \<and> finalizing e) \<and>
   status (fst (msg_step m e)) =
     (if status m = Building \<and> finalizing e then disposition_of e else status m)"
  by (cases e) (auto simp: append_packet_def expire_def Let_def)

lemma msg_run_terminal:
  "status m \<noteq> Building \<Longrightarrow>
     snd (msg_run m evs) = 0 \<and> status (fst (msg_run m evs)) = status m"
proof (induction evs arbitrary: m)
  case Nil
  then show ?case by simp
next
  case (Cons e evs)
  obtain m' b where st: "msg_step m e = (m', b)" by (cases "msg_step m e")
  with Cons.prems msg_step_eq [of m e] have "status m' = status m \<and> \<not> b" by simp
  with Cons st show ?case by (auto split: prod.splits)
qed

lemma msg_run_Building:
  "status m = Building \<Longrightarrow>
     snd (msg_run m evs) = (case find finalizing evs of None \<Rightarrow> 0 | Some e \<Rightarrow> 1) \<and>
     status (fst (msg_run m evs)) =
       (case find finalizing evs of None \<Rightarrow> Building | Some e \<Rightarrow> disposition_of e)"
proof (induction evs arbitrary: m)
  case Nil
  then show ?case by simp
next
  case (Cons e evs)
  obtain m' b where st: "msg_step m e = (m', b)" by (cases "msg_step m e")
  show ?case
  proof (cases "finalizing e")
    case True
    with msg_step_eq [of m e] Cons.prems st
    have b and "status m' = disposition_of e" by simp_all
    moreover from \<open>status m' = disposition_of e\<close> have "status m' \<noteq> Building"
      by (cases e) simp_all
    ultimately show ?thesis
      using msg_run_terminal [of m' evs] True st by (auto split: prod.splits)
  next
    case False
    with msg_step_eq [of m e] Cons.prems st
    have "\<not> b" and "status m' = Building" by simp_all
    with Cons.IH [of m'] False st show ?thesis by (auto split: prod.splits)
  qed
qed

text \<open>
  Claim C5. (TCPMessage as the spec describes it.) Over any sequence of appends and
  watchdog firings, a new message emits itself once if the sequence holds an event
  that finishes it (an append of a packet with the push flag, or a firing), and not
  at all otherwise; its status is then the disposition of the first such event. One
  event makes the message emit itself exactly when the message is still Building and
  the event finishes it, and then moves it to Completed or Expired; a message that
  is Completed or Expired keeps its status and never emits again.
\<close>

theorem disposition_exactly_once:
  "snd (msg_run (NewTCPMessage ack) evs) =
     (case find finalizing evs of None \<Rightarrow> 0 | Some e \<Rightarrow> 1)
   \<and> status (fst (msg_run (NewTCPMessage ack) evs)) =
       (case find finalizing evs of None \<Rightarrow> Building | Some e \<Rightarrow> disposition_of e)
   \<and> snd (msg_step m e) = (status m = Building \<and> finalizing e)
   \<and> status (fst (msg_step m e)) =
       (if status m = Building \<and> finalizing e then disposition_of e else status m)
   \<and> disposition_of e \<noteq> Building
   \<and> snd (msg_run m evs) =
       (if status m = Building then (case find finalizing evs of None \<Rightarrow> 0 | Some e \<Rightarrow> 1)
        else 0)
   \<and> status (fst (msg_run m evs)) =
       (if status m = Building
        then (case find finalizing evs of None \<Rightarrow> Building | Some e \<Rightarrow> disposition_of e)
        else status m)"
proof -
  have "status (NewTCPMessage ack) = Building" by (simp add: NewTCPMessage_def)
  moreover have "disposition_of e \<noteq> Building" by (cases e) simp_all
  ultimately show ?thesis
    using msg_run_Building [of "NewTCPMessage ack" evs] msg_run_Building [of m evs]
      msg_run_terminal [of m evs] msg_step_eq [of m e]
    by simp
qed

section \<open>Startup\<close>

lemma startSniffer_absent:
  assumes "Device st \<notin> Name ` set (fst (Findalldevs env))"
  shows "startSniffer env st t =
           ([Ev_Findalldevs],
            Fatal (case snd (Findalldevs env) of
                     Some e \<Rightarrow> ''Error while getting device list'' @ e
                   | None \<Rightarrow> ''Could not find network interface'' @ Device st))"
  using assms
  by (cases "Findalldevs env")
     (simp add: startSniffer_def find_interface_eq split: option.splits)

text \<open>
  Claim C6. When the device name of \<^verbatim>\<open>Settings\<close> is not the name of any enumerated
  device, the constructor ends in \<^verbatim>\<open>log.Fatal\<close>: with the text "Could not find network
  interface" and the name, or, when the enumeration itself failed, with the text of
  that failure. The only call made on the capture library is the enumeration: no
  handle is opened, no filter is set. The program is then that exit whatever the
  schedule, so \<^verbatim>\<open>Receive\<close> never returns a message.
\<close>

theorem missing_device_is_fatal:
  assumes "Device st \<notin> Name ` set (fst (Findalldevs env))"
  shows "\<exists>diagnostic.
           RAWTCPListen env st dev prt = ([Ev_Findalldevs], Fatal diagnostic) \<and>
           diagnostic =
             (case snd (Findalldevs env) of
                Some e \<Rightarrow> ''Error while getting device list'' @ e
              | None \<Rightarrow> ''Could not find network interface'' @ Device st) \<and>
           (\<forall>acts. program env st dev prt acts = Fatal diagnostic \<and>
                   received (program env st dev prt acts) = Fatal diagnostic)"
  by (simp add: RAWTCPListen_def program_def received_def startSniffer_absent [OF assms])

theorem missing_device_is_fatal_witness:
  "RAWTCPListen scenario_env \<lparr>Device = ''eth1''\<rparr> ''eth0'' 80 =
     ([Ev_Findalldevs], Fatal ''Could not find network interfaceeth1'')"
proof -
  have "Device \<lparr>Device = ''eth1''\<rparr> \<notin> Name ` set (fst (Findalldevs scenario_env))"
    by (simp add: scenario_env_def)
  from missing_device_is_fatal [OF this, of "''eth0''" 80] show ?thesis
    by (simp add: scenario_env_def)
qed

text \<open>
  Claim C10. The \<^verbatim>\<open>device\<close> argument of \<^verbatim>\<open>RAWTCPListen\<close> is stored in the listener and
  read nowhere during startup. For two values of the argument, with the same
  environment, settings and port, the constructor makes the same calls on the capture
  library, exits through \<^verbatim>\<open>log.Fatal\<close> with the same text in the same cases, and
  returns listeners that differ in the stored field only.
\<close>

theorem device_argument_unused:
  "RAWTCPListen env st d2 prt =
     (case RAWTCPListen env st d1 prt of
        (evs, out) \<Rightarrow> (evs, map_outcome (\<lambda>t. t\<lparr>device := d2\<rparr>) out))
   \<and> fst (RAWTCPListen env st d1 prt) = fst (RAWTCPListen env st d2 prt)
   \<and> (\<forall>s. (snd (RAWTCPListen env st d1 prt) = Fatal s) =
          (snd (RAWTCPListen env st d2 prt) = Fatal s))
   \<and> (\<forall>t. snd (RAWTCPListen env st d1 prt) = Return t \<longrightarrow> device t = d1)"
  by (auto simp add: RAWTCPListen_def startSniffer_def Let_def
      split: prod.splits option.splits)

theorem device_argument_unused_witness:
  "fst (RAWTCPListen scenario_env scenario_settings ''eth0'' 80) =
     fst (RAWTCPListen scenario_env scenario_settings ''no such device'' 80)
   \<and> map_outcome device
       (snd (RAWTCPListen scenario_env scenario_settings ''no such device'' 80)) =
       Return ''no such device''"
proof -
  have "snd (RAWTCPListen scenario_env scenario_settings ''no such device'' 80) =
     Return \<lparr>messages = Map.empty, c_packets = [], c_messages = [], c_del_message = [],
              sniffer = Some (Pcap 0), device = ''no such device'', port = 80, heap = []\<rparr>"
    by (simp add: scenario_start)
  with device_argument_unused [of scenario_env scenario_settings "''eth0''" 80
         "''no such device''"]
    device_argument_unused [of scenario_env scenario_settings "''no such device''" 80
         "''eth0''"]
  show ?thesis by simp
qed

text \<open>
  Claim C7. For port 80 the expression handed to \<^verbatim>\<open>Setfilter\<close> is "tcp dst port P":
  \<^verbatim>\<open>string(t.port)\<close> is the character with code point 80, not the decimal digits of
  80. The expression the claim describes, "tcp dst port 80", is not what is built.
\<close>

theorem filter_expr_port_80:
  "fst (RAWTCPListen scenario_env scenario_settings ''eth0'' 80) =
     [Ev_Findalldevs, Ev_Openlive ''eth0'', Ev_Setfilter (Some (Pcap 0)) ''tcp dst port P'']
   \<and> filter_expr 80 = ''tcp dst port P''
   \<and> filter_expr 80 \<noteq> ''tcp dst port 80''"
  by (simp add: RAWTCPListen_def startSniffer_def scenario_env_def scenario_settings_def
      filter_expr_def intstring_def encoderune_def char_of_def Let_def)

text \<open>
  Claim C8. When \<^verbatim>\<open>Openlive\<close> fails, returning a nil handle and an error, the
  constructor calls \<^verbatim>\<open>Setfilter\<close> on that handle before it looks at the error. The
  call panics, and the \<^verbatim>\<open>log.Fatal\<close> with "Error while trying to listen" is not
  reached.
\<close>

theorem open_failure_reaches_Setfilter:
  "RAWTCPListen failing_env scenario_settings ''eth0'' 80 =
     ([Ev_Findalldevs, Ev_Openlive ''eth0'', Ev_Setfilter None ''tcp dst port P''], Panic)"
  by (simp add: RAWTCPListen_def startSniffer_def failing_env_def scenario_settings_def
      filter_expr_def intstring_def encoderune_def char_of_def Let_def)

section \<open>The two-packet scenario\<close>

lemma flow42_packetE:
  assumes "flow42_packet prt push payload p"
  obtains x h rest where "Headers p = x # H_Tcp h # rest" and "Tcphdr.Ack h = 42"
    and "uint (DestPort h) = prt" and "bit (Flags h) 3 = push" and "Payload p = payload"
  using assms
  by (auto simp: flow42_packet_def split: list.splits header.splits)

lemma flow42_dropped:
  assumes "flow42_packet prt False payload p" and "port t = prt"
  shows "readRAWSocket_iter t (Some p) = None"
  using assms(1)
  by (rule flow42_packetE) (simp add: readRAWSocket_iter_def psh_bit)

lemma flow42_kept:
  assumes "flow42_packet prt True payload p" and "port t = prt"
  shows "readRAWSocket_iter t (Some p) = Some p"
  using assms(1)
  by (rule flow42_packetE) (simp add: readRAWSocket_iter_def psh_bit assms(2))

lemma flow42_distinct:
  "flow42_packet prt False payload1 p1 \<Longrightarrow> flow42_packet prt True payload2 p2 \<Longrightarrow> p1 \<noteq> p2"
  by (auto elim!: flow42_packetE)

lemma stage_capture1:
  assumes "flow42_packet prt False payload p1" and "scenario_stage prt p2 s t"
  shows "step (A_capture (Some p1)) t = Return t"
  using flow42_dropped [OF assms(1), of t] assms(2)
  by (simp add: scenario_stage_def readRAWSocket_def)

lemma stage_capture2:
  assumes "flow42_packet prt True payload p2" and "scenario_stage prt p2 At_start t"
  shows "\<exists>t'. step (A_capture (Some p2)) t = Return t' \<and> scenario_stage prt p2 Queued t'"
  using flow42_kept [OF assms(1), of t] assms(2)
  by (simp add: scenario_stage_def readRAWSocket_def chan_send_def chan_cap_def)

lemma stage_queues:
  assumes "scenario_stage prt p2 s t"
  shows "RAWTCPListener.c_packets t = [] \<or> s = Queued"
    and "c_del_message t = [] \<or> s = Reported"
    and "c_messages t = [] \<or> s = Deliverable"
  using assms by (simp_all add: scenario_stage_def)

lemma stage_listen_packet:
  assumes "flow42_packet prt True payload p2" and "scenario_stage prt p2 Queued t"
  shows "\<exists>t'. listen_iter Case_packet t = Return t' \<and> scenario_stage prt p2 At_message t'"
  using assms(1)
proof (rule flow42_packetE)
  fix x h rest
  assume "Headers p2 = x # H_Tcp h # rest" and "Tcphdr.Ack h = 42"
  with assms(2) show ?thesis
    by (simp add: scenario_stage_def listen_iter_def processTCPPacket_def
        send_to_message_def NewTCPMessage_def)
qed

lemma stage_listen_del:
  assumes "scenario_stage prt p2 Reported t"
  shows "\<exists>t'. listen_iter Case_del_message t = Return t' \<and>
           scenario_stage prt p2 Deliverable t'"
  using assms
  by (simp add: scenario_stage_def listen_iter_def chan_send_def chan_cap_def)

lemma stage_message0:
  assumes "flow42_packet prt True payload p2" and "scenario_stage prt p2 At_message t"
  shows "\<exists>t'. message_receive 0 t = Return t' \<and> scenario_stage prt p2 Reported t'"
  using assms(1)
proof (rule flow42_packetE)
  fix x h rest
  assume "Headers p2 = x # H_Tcp h # rest" and "bit (Flags h) 3 = True"
  with assms(2) show ?thesis
    by (simp add: scenario_stage_def message_receive_def NewTCPMessage_def
          append_packet_def push_flag_def psh_bit Let_def
          emit_self_def chan_send_def chan_cap_def)
qed

lemma stage_listen:
  assumes "flow42_packet prt True payload p2"
    and "scenario_stage prt p2 s t" and "step (A_listen c) t = Return t'"
  shows "\<exists>s'. s' \<noteq> At_start \<and> s \<noteq> At_start \<and> scenario_stage prt p2 s' t'"
proof (cases c)
  case Case_del_message
  with assms(3) stage_queues(2) [OF assms(2)] have "s = Reported"
    by (auto simp: listen_iter_def)
  with assms Case_del_message stage_listen_del [of prt p2 t] show ?thesis by auto
next
  case Case_packet
  with assms(3) stage_queues(1) [OF assms(2)] have "s = Queued"
    by (auto simp: listen_iter_def)
  with assms Case_packet stage_listen_packet [of prt payload p2 t] show ?thesis by auto
qed

lemma stage_message:
  assumes "flow42_packet prt True payload p2"
    and "scenario_stage prt p2 s t" and "step (A_message r) t = Return t'"
  shows "\<exists>s'. s' \<noteq> At_start \<and> s \<noteq> At_start \<and> scenario_stage prt p2 s' t'"
proof -
  from assms(3) have r: "r < length (heap t)"
    and nonempty: "TCPMessage.c_packets (heap t ! r) \<noteq> []"
    by (auto simp: message_receive_def split: if_splits)
  from r assms(2) have r0: "r = 0"
    by (simp add: scenario_stage_def split: if_splits)
  with r nonempty assms(2) have s: "s = At_message"
    by (cases s) (simp_all add: scenario_stage_def)
  with assms r0 stage_message0 [of prt payload p2 t] show ?thesis by auto
qed

lemma stage_Receive:
  assumes "scenario_stage prt p2 s t" and "step A_Receive t = Return t'"
  shows "\<exists>s'. s' \<noteq> At_start \<and> s \<noteq> At_start \<and> scenario_stage prt p2 s' t'"
proof -
  from assms(2) stage_queues(3) [OF assms(1)] have s: "s = Deliverable"
    by (auto simp: Receive_def)
  with assms have "scenario_stage prt p2 Delivered t'"
    by (auto simp: scenario_stage_def Receive_def)
  with s show ?thesis by auto
qed

lemma scenario_delivery:
  assumes "flow42_packet prt False payload1 p1" and "flow42_packet prt True payload2 p2"
    and "scenario_stage prt p2 s t"
    and "if s = At_start then captured acts = [p1, p2] \<or> captured acts = [p2]
         else captured acts = []"
    and "watchdog_free acts"
    and "run acts t = Return t'"
  shows "\<exists>s'. scenario_stage prt p2 s' t'"
  using assms(3-6)
proof (induction acts arbitrary: s t)
  case Nil
  then show ?case by auto
next
  case (Cons a acts)
  note p1 = assms(1) and p2 = assms(2)
  from p1 p2 have ne: "p1 \<noteq> p2" by (rule flow42_distinct)
  from Cons.prems(4) obtain t1 where st: "step a t = Return t1" and r: "run acts t1 = Return t'"
    by (auto split: outcome.splits)
  from Cons.prems(3) have wf: "watchdog_free acts" and nt: "\<not> is_timeout a"
    by (simp_all add: watchdog_free_def)
  have later: ?case
    if "\<exists>s'. s' \<noteq> At_start \<and> s \<noteq> At_start \<and> scenario_stage prt p2 s' t1"
      and c: "captured (a # acts) = captured acts"
  proof -
    from that(1) obtain s'
      where s': "s' \<noteq> At_start" "s \<noteq> At_start" "scenario_stage prt p2 s' t1"
      by blast
    from Cons.prems(2) s'(2) c have "captured acts = []" by simp
    with s'(1) have "if s' = At_start
         then captured acts = [p1, p2] \<or> captured acts = [p2]
         else captured acts = []" by simp
    from Cons.IH [OF s'(3) this wf r] show ?thesis .
  qed
  show ?case
  proof (cases a)
    case (A_capture nxt)
    show ?thesis
    proof (cases nxt)
      case None
      with A_capture st have "t1 = t"
        by (simp add: readRAWSocket_def readRAWSocket_iter_def)
      with Cons.prems(1) have stage: "scenario_stage prt p2 s t1" by simp
      from None A_capture Cons.prems(2)
      have "if s = At_start then captured acts = [p1, p2] \<or> captured acts = [p2]
            else captured acts = []" by (auto split: if_splits)
      from Cons.IH [OF stage this wf r] show ?thesis .
    next
      case (Some pkt)
      with A_capture Cons.prems(2) have s0: "s = At_start" by (auto split: if_splits)
      with Cons.prems(2) A_capture Some
      consider "pkt = p1" "captured acts = [p2]" | "pkt = p2" "captured acts = []"
        by auto
      then show ?thesis
      proof cases
        case 1
        with stage_capture1 [OF p1 Cons.prems(1)] A_capture Some st have "t1 = t" by simp
        with Cons.prems(1) s0 have "scenario_stage prt p2 At_start t1" by simp
        from Cons.IH [OF this _ wf r] 1 show ?thesis by simp
      next
        case 2
        with stage_capture2 [OF p2, of t] Cons.prems(1) s0 A_capture Some st
        have "scenario_stage prt p2 Queued t1" by auto
        from Cons.IH [OF this _ wf r] 2 show ?thesis by simp
      qed
    qed
  next
    case (A_listen c)
    with st have "step (A_listen c) t = Return t1" by simp
    from stage_listen [OF p2 Cons.prems(1) this] A_listen show ?thesis
      by (intro later) simp_all
  next
    case (A_message m)
    with st have "step (A_message m) t = Return t1" by simp
    from stage_message [OF p2 Cons.prems(1) this] A_message show ?thesis
      by (intro later) simp_all
  next
    case (A_timeout m)
    with nt show ?thesis by simp
  next
    case A_Receive
    with st have "step A_Receive t = Return t1" by simp
    from stage_Receive [OF Cons.prems(1) this] A_Receive show ?thesis
      by (intro later) simp_all
  qed
qed

lemma stage_received:
  assumes "scenario_stage prt p2 s t" and "Receive t = Return (m, t')"
  shows "m = 0 \<and> heap t' ! m =
           \<lparr>TCPMessage.Ack = 42, c_packets = [], buffer = Payload p2, status = Completed\<rparr>"
  using assms by (auto simp: scenario_stage_def Receive_def split: if_splits list.splits)

lemma delivery_schedule_run:
  assumes "flow42_packet prt False payload1 p1" and "flow42_packet prt True payload2 p2"
    and "scenario_stage prt p2 At_start t0"
  shows "\<exists>t. run (delivery_schedule p1 p2) t0 = Return t \<and> scenario_stage prt p2 Deliverable t"
proof -
  from stage_capture1 [OF assms(1,3)]
  have 1: "step (A_capture (Some p1)) t0 = Return t0" .
  from stage_capture2 [OF assms(2,3)] obtain t1
    where 2: "step (A_capture (Some p2)) t0 = Return t1" "scenario_stage prt p2 Queued t1"
    by blast
  from stage_listen_packet [OF assms(2) 2(2)] obtain t2
    where 3: "listen_iter Case_packet t1 = Return t2" "scenario_stage prt p2 At_message t2"
    by blast
  from stage_message0 [OF assms(2) 3(2)] obtain t3
    where 4: "message_receive 0 t2 = Return t3" "scenario_stage prt p2 Reported t3"
    by blast
  from stage_listen_del [OF 4(2)] obtain t4
    where 5: "listen_iter Case_del_message t3 = Return t4"
      "scenario_stage prt p2 Deliverable t4"
    by blast
  from 1 2 3 4 5 show ?thesis by (simp add: delivery_schedule_def)
qed

text \<open>
  Claim C3, as stated, fails. In the scenario's execution \<^verbatim>\<open>Receive\<close> returns a
  Completed message, and its buffer is not "GET / HTTP/1.1" followed by two line
  ends.
\<close>

theorem scenario_buffer_lacks_first_payload:
  "map_outcome status
     (received (program scenario_env scenario_settings ''eth0'' 80 scenario_schedule)) =
     Return Completed
   \<and> map_outcome buffer
     (received (program scenario_env scenario_settings ''eth0'' 80 scenario_schedule)) \<noteq>
     Return (''GET / HTTP/1.1'' @ [CHR 0x0D, CHR 0x0A, CHR 0x0D, CHR 0x0A])"
  by (simp add: scenario_run received_def Receive_def scenario_message_def
      scenario_packet2_def)

text \<open>
  Claim C3, amended. (TCPMessage as the spec describes it.) Take a listener on any
  port and any two decoded packets whose second header is a TCP header with
  acknowledgment number 42 and the listener's port as destination: the first with
  payload "GET /" and the push flag unset, the second with payload " HTTP/1.1"
  followed by two line ends and the push flag set. The capture loop drops the first
  packet. In every execution in which the capture loop reads these two packets in
  this order and no other (apart from \<^verbatim>\<open>nil\<close> reads) and no watchdog fires, whatever
  the order of the turns, a message that \<^verbatim>\<open>Receive\<close> returns has the second payload
  alone as its buffer and status Completed. Such a delivery does take place: once
  the constructor has returned, the schedule in which both packets are captured, the
  dispatcher handles the queued packet, the message appends it and the dispatcher
  hands the message over ends in a state where \<^verbatim>\<open>Receive\<close> returns that message.
\<close>

theorem scenario_delivers_second_payload:
  assumes "flow42_packet prt False scenario_payload1 p1"
    and "flow42_packet prt True scenario_payload2 p2"
  shows "(\<forall>acts t m t'.
            captured acts = [p1, p2] \<and> watchdog_free acts \<and>
            program env st dev prt acts = Return t \<and> Receive t = Return (m, t') \<longrightarrow>
            readRAWSocket_iter t (Some p1) = None \<and>
            buffer (heap t' ! m) = '' HTTP/1.1'' @ [CHR 0x0D, CHR 0x0A, CHR 0x0D, CHR 0x0A] \<and>
            status (heap t' ! m) = Completed)
       \<and> captured (delivery_schedule p1 p2) = [p1, p2]
       \<and> watchdog_free (delivery_schedule p1 p2)
       \<and> (\<forall>t0. snd (RAWTCPListen env st dev prt) = Return t0 \<longrightarrow>
            (\<exists>t m t'. program env st dev prt (delivery_schedule p1 p2) = Return t \<and>
                      Receive t = Return (m, t') \<and>
                      buffer (heap t' ! m) =
                        '' HTTP/1.1'' @ [CHR 0x0D, CHR 0x0A, CHR 0x0D, CHR 0x0A] \<and>
                      status (heap t' ! m) = Completed))"
proof -
  from assms(2) have payload: "Payload p2 = scenario_payload2"
    by (rule flow42_packetE)
  have all: "readRAWSocket_iter t (Some p1) = None \<and>
            buffer (heap t' ! m) = '' HTTP/1.1'' @ [CHR 0x0D, CHR 0x0A, CHR 0x0D, CHR 0x0A] \<and>
            status (heap t' ! m) = Completed"
    if c: "captured acts = [p1, p2]" and w: "watchdog_free acts"
      and p: "program env st dev prt acts = Return t" and rc: "Receive t = Return (m, t')"
    for acts t m t'
  proof -
    from p obtain t0
      where t0: "snd (RAWTCPListen env st dev prt) = Return t0" and r: "run acts t0 = Return t"
      by (rule program_Return)
    from RAWTCPListen_Return [OF t0] have "scenario_stage prt p2 At_start t0"
      by (simp add: scenario_stage_def)
    from scenario_delivery [OF assms this _ w r] c
    obtain s where s: "scenario_stage prt p2 s t" by auto
    then have "port t = prt" by (simp add: scenario_stage_def)
    from flow42_dropped [OF assms(1) this] stage_received [OF s rc] payload
    show ?thesis by (auto simp: scenario_payload2_def)
  qed
  have ex: "\<exists>t m t'. program env st dev prt (delivery_schedule p1 p2) = Return t \<and>
                      Receive t = Return (m, t') \<and>
                      buffer (heap t' ! m) =
                        '' HTTP/1.1'' @ [CHR 0x0D, CHR 0x0A, CHR 0x0D, CHR 0x0A] \<and>
                      status (heap t' ! m) = Completed"
    if t0: "snd (RAWTCPListen env st dev prt) = Return t0" for t0
  proof -
    from RAWTCPListen_Return [OF t0] have "scenario_stage prt p2 At_start t0"
      by (simp add: scenario_stage_def)
    from delivery_schedule_run [OF assms this] obtain t
      where t: "run (delivery_schedule p1 p2) t0 = Return t"
        "scenario_stage prt p2 Deliverable t"
      by blast
    from t(1) t0 have "program env st dev prt (delivery_schedule p1 p2) = Return t"
      by (simp add: program_def)
    moreover from t(2) have "Receive t = Return (0, t\<lparr>c_messages := []\<rparr>)"
      and "heap t ! 0 =
           \<lparr>TCPMessage.Ack = 42, c_packets = [], buffer = Payload p2, status = Completed\<rparr>"
      by (simp_all add: scenario_stage_def Receive_def)
    ultimately show ?thesis using payload by (auto simp: scenario_payload2_def)
  qed
  have "captured (delivery_schedule p1 p2) = [p1, p2]"
    and "watchdog_free (delivery_schedule p1 p2)"
    by (simp_all add: delivery_schedule_def watchdog_free_def)
  with all ex show ?thesis by blast
qed

theorem scenario_delivers_second_payload_witness:
  "flow42_packet 80 False scenario_payload1 scenario_packet1
   \<and> flow42_packet 80 True scenario_payload2 scenario_packet2
   \<and> received (program scenario_env scenario_settings ''eth0'' 80 scenario_schedule) =
     Return \<lparr>TCPMessage.Ack = 42, c_packets = [],
             buffer = '' HTTP/1.1'' @ [CHR 0x0D, CHR 0x0A, CHR 0x0D, CHR 0x0A],
             status = Completed\<rparr>"
proof -
  let ?t = "\<lparr>messages = Map.empty, c_packets = [], c_messages = [0], c_del_message = [],
             sniffer = Some (Pcap 0), device = ''eth0'', port = 80,
             heap = [scenario_message]\<rparr>"
  have b: "bit (0x18 :: 16 word) 3" "\<not> bit (0x10 :: 16 word) 3"
    by (simp_all add: psh_bit [symmetric] TCP_PSH_def)
  then have p1: "flow42_packet 80 False scenario_payload1 scenario_packet1"
    and p2: "flow42_packet 80 True scenario_payload2 scenario_packet2"
    by (simp_all add: flow42_packet_def scenario_packet1_def scenario_packet2_def
        scenario_payload1_def scenario_payload2_def)
  have a: "captured scenario_schedule = [scenario_packet1, scenario_packet2]"
    by (simp add: scenario_schedule_def)
  have w: "watchdog_free scenario_schedule"
    by (simp add: scenario_schedule_def watchdog_free_def)
  have c: "Receive ?t = Return (0, ?t\<lparr>c_messages := []\<rparr>)"
    by (simp add: Receive_def)
  from scenario_delivers_second_payload [OF p1 p2, of scenario_env scenario_settings "''eth0''"] a w scenario_run c
  have "buffer (heap (?t\<lparr>c_messages := []\<rparr>) ! 0) =
          '' HTTP/1.1'' @ [CHR 0x0D, CHR 0x0A, CHR 0x0D, CHR 0x0A] \<and>
        status (heap (?t\<lparr>c_messages := []\<rparr>) ! 0) = Completed"
    by blast
  with p1 p2 scenario_run c show ?thesis
    by (simp add: received_def scenario_message_def scenario_packet2_def)
qed

end
